theory Spec2Isabelle
  imports Main "HOL-Library.Monad_Syntax"
begin

section \<open>The Debug module of STM32-libraries (Modules/Debug/Debug.cpp)\<close>

text \<open>
  The model is the configuration with \<^verbatim>\<open>DEBUG_PRINTF_ENABLED\<close> and \<^verbatim>\<open>USE_FREERTOS\<close>
  defined. Every operation runs as one atomic step: the binary semaphore that serialises
  the callers is not modelled beyond that. A \<^verbatim>\<open>const char *\<close> argument is represented by
  the characters in front of its terminating NUL, so \<^verbatim>\<open>strlen\<close> is \<open>length\<close>.

  The header Debug.h is not part of the sources at hand. The constant
  \<^verbatim>\<open>MAX_DEBUG_TEXT_LENGTH\<close> is therefore the first parameter of every function that uses
  it, and the macro \<^verbatim>\<open>ERROR\<close> is a parameter of the two functions that invoke it.
\<close>

subsection \<open>Data\<close>

text \<open>The transport object behind \<^verbatim>\<open>com_\<close>; only its connection state is read.\<close>

record LSPC =
  Connected :: bool

text \<open>The GPIO object behind \<^verbatim>\<open>debugPulsePin_\<close>.\<close>

record IO =
  level :: bool

text \<open>
  Modelled from the spec: the field declarations of \<^verbatim>\<open>class Debug\<close> are in Debug.h,
  which is missing. \<open>messageBuffer\<close> is the byte array of fixed capacity and
  \<open>currentBufferLocation\<close> the integer fill level. The fields are named as in the code,
  without the trailing underscore; a null pointer is \<open>None\<close>.
\<close>

record Debug =
  com :: "LSPC option"
  debugPulsePin :: "IO option"
  messageBuffer :: string
  currentBufferLocation :: nat

text \<open>What the module does to its environment, in the order it happens.\<close>

datatype event =
    Transmit string
  | Delay nat
  | SemaphoreCreated
  | TaskCreated
  | Breakpoint
  | Diagnostic string

text \<open>The two static members of the class and the environment's event log.\<close>

record world =
  handleCreated :: bool
  debugHandle :: Debug
  trace :: "event list"

subsection \<open>Collaborators\<close>

text \<open>
  \<^verbatim>\<open>TransmitAsync(lspc::MessageTypesToPC::Debug, ptr, length)\<close>: the call is logged with
  the \<open>length\<close> bytes found at \<open>ptr\<close>; its boolean result is dropped by every caller.
\<close>

definition TransmitAsync :: "string \<Rightarrow> nat \<Rightarrow> world \<Rightarrow> world" where
  "TransmitAsync ptr len w = w\<lparr>trace := trace w @ [Transmit (take len ptr)]\<rparr>"

definition osDelay :: "nat \<Rightarrow> world \<Rightarrow> world" where
  "osDelay ticks w = w\<lparr>trace := trace w @ [Delay ticks]\<rparr>"

text \<open>\<^verbatim>\<open>memcpy(&buf[off], src, n)\<close>, for \<open>off + n\<close> within the buffer.\<close>

definition memcpy :: "string \<Rightarrow> nat \<Rightarrow> string \<Rightarrow> nat \<Rightarrow> string" where
  "memcpy buf off src n = take off buf @ take n src @ drop (off + n) buf"

text \<open>\<^verbatim>\<open>memset(buf, 0, n)\<close>.\<close>

definition memset0 :: "string \<Rightarrow> nat \<Rightarrow> string" where
  "memset0 buf n = replicate (min n (length buf)) (CHR 0x00) @ drop n buf"

definition set_currentBufferLocation :: "nat \<Rightarrow> world \<Rightarrow> world" where
  "set_currentBufferLocation n w =
     w\<lparr>debugHandle := (debugHandle w)\<lparr>currentBufferLocation := n\<rparr>\<rparr>"

definition set_messageBuffer :: "string \<Rightarrow> world \<Rightarrow> world" where
  "set_messageBuffer b w = w\<lparr>debugHandle := (debugHandle w)\<lparr>messageBuffer := b\<rparr>\<rparr>"

subsection \<open>Debug::Debug\<close>

text \<open>
  The constructor runs on the object \<open>this\<close> and on the static flag. A result \<open>None\<close>
  means that control does not come back.
\<close>

definition Debug_ctor ::
  "(string \<Rightarrow> world \<Rightarrow> world option) \<Rightarrow> Debug \<Rightarrow> world \<Rightarrow> (Debug \<times> world) option" where
  "Debug_ctor ERROR this w =
     (let this1 = this\<lparr>com := None, debugPulsePin := None\<rparr>
      in if handleCreated w
         then ERROR ''Debug object already created'' w \<bind> (\<lambda>w1. Some (this1, w1))
         else Some (this1, w\<lparr>handleCreated := True\<rparr>))"

text \<open>
  Modelled from the spec: the macro \<^verbatim>\<open>ERROR\<close> of Debug.h is missing. The spec calls the
  report of a duplicate construction a non-fatal, best-effort diagnostic: the text is
  reported and control returns.
\<close>

definition ERROR_diagnostic :: "string \<Rightarrow> world \<Rightarrow> world option" where
  "ERROR_diagnostic msg w = Some (w\<lparr>trace := trace w @ [Diagnostic msg]\<rparr>)"

subsection \<open>Debug::AssignDebugCOM\<close>

text \<open>
  \<open>com_arg\<close> is the argument \<^verbatim>\<open>com\<close>; \<open>semaphore_ok\<close> tells whether \<^verbatim>\<open>xSemaphoreCreateBinary\<close> returns a handle.
\<close>

definition AssignDebugCOM ::
  "(string \<Rightarrow> world \<Rightarrow> world option) \<Rightarrow> nat \<Rightarrow> LSPC option \<Rightarrow> bool \<Rightarrow> world \<Rightarrow> world option" where
  "AssignDebugCOM ERROR MAX_DEBUG_TEXT_LENGTH com_arg semaphore_ok w =
     (let w1 = w\<lparr>debugHandle := (debugHandle w)\<lparr>com := com_arg\<rparr>\<rparr>
      in if com_arg = None then ERROR ''LSPC object does not exist'' w1
         else
           (let w2 = set_currentBufferLocation 0 w1;
                w3 = set_messageBuffer
                       (memset0 (messageBuffer (debugHandle w2)) MAX_DEBUG_TEXT_LENGTH) w2
            in if \<not> semaphore_ok then ERROR ''Could not create Debug mutex'' w3
               else Some (w3\<lparr>trace := trace w3 @ [SemaphoreCreated, TaskCreated]\<rparr>)))"

subsection \<open>Debug::PackageGeneratorThread\<close>

text \<open>One round of the thread's \<^verbatim>\<open>while (1)\<close>.\<close>

definition PackageGeneratorThread_round :: "world \<Rightarrow> world" where
  "PackageGeneratorThread_round w =
     (let w1 = osDelay 1 w
      in if currentBufferLocation (debugHandle w1) > 0
         then set_currentBufferLocation 0
                (TransmitAsync (messageBuffer (debugHandle w1))
                   (currentBufferLocation (debugHandle w1)) w1)
         else w1)"

subsection \<open>Debug::Message(const char *)\<close>

text \<open>
  The \<^verbatim>\<open>while (stringLength > 0)\<close> loop that splits a long message. \<open>msgPtr\<close> is the
  text from the pointer onwards.
\<close>

partial_function (option) Message_split :: "nat \<Rightarrow> string \<Rightarrow> nat \<Rightarrow> world \<Rightarrow> world option" where
  "Message_split MAX_DEBUG_TEXT_LENGTH msgPtr stringLength w =
     (if stringLength > 0 then
        (let sendLength =
               (if stringLength > MAX_DEBUG_TEXT_LENGTH then MAX_DEBUG_TEXT_LENGTH
                else stringLength)
         in Message_split MAX_DEBUG_TEXT_LENGTH (drop sendLength msgPtr)
              (stringLength - sendLength) (TransmitAsync msgPtr sendLength w))
      else Some w)"

text \<open>The \<^verbatim>\<open>else\<close> branch: the message fits in one package.\<close>

definition Message_fit :: "nat \<Rightarrow> string \<Rightarrow> nat \<Rightarrow> world \<Rightarrow> world" where
  "Message_fit MAX_DEBUG_TEXT_LENGTH msg stringLength w =
     (let w1 =
            (if int stringLength >
                  int MAX_DEBUG_TEXT_LENGTH - int (currentBufferLocation (debugHandle w))
             then set_currentBufferLocation 0
                    (TransmitAsync (messageBuffer (debugHandle w))
                       (currentBufferLocation (debugHandle w)) w)
             else w);
          w2 = set_messageBuffer
                 (memcpy (messageBuffer (debugHandle w1))
                    (currentBufferLocation (debugHandle w1)) msg stringLength) w1
      in set_currentBufferLocation
           (currentBufferLocation (debugHandle w2) + stringLength) w2)"

text \<open>
  \<^verbatim>\<open>uint16_t stringLength = strlen(msg)\<close> keeps the low 16 bits of the length.
\<close>

definition Message :: "nat \<Rightarrow> string \<Rightarrow> world \<Rightarrow> world option" where
  "Message MAX_DEBUG_TEXT_LENGTH msg w =
     (case com (debugHandle w) of
        None \<Rightarrow> Some w
      | Some lspc \<Rightarrow>
          if \<not> Connected lspc then Some w
          else
            (let stringLength = length msg mod 65536
             in if stringLength > MAX_DEBUG_TEXT_LENGTH
                then Message_split MAX_DEBUG_TEXT_LENGTH msg stringLength
                       (set_currentBufferLocation 0
                          (TransmitAsync (messageBuffer (debugHandle w))
                             (currentBufferLocation (debugHandle w)) w))
                else Some (Message_fit MAX_DEBUG_TEXT_LENGTH msg stringLength w)))"

subsection \<open>The other overloads of Debug::Message\<close>

text \<open>\<^verbatim>\<open>std::string::c_str()\<close> read as a C string: the text up to the first NUL.\<close>

definition c_str :: "string \<Rightarrow> string" where
  "c_str s = takeWhile (\<lambda>c. c \<noteq> CHR 0x00) s"

text \<open>\<^verbatim>\<open>Message(std::string msg)\<close>\<close>

definition Message_string :: "nat \<Rightarrow> string \<Rightarrow> world \<Rightarrow> world option" where
  "Message_string MAX_DEBUG_TEXT_LENGTH msg w =
     Message MAX_DEBUG_TEXT_LENGTH (c_str msg) w
       \<bind> Message MAX_DEBUG_TEXT_LENGTH [CHR 0x0A]"

text \<open>\<^verbatim>\<open>Message(const char * functionName, const char * msg)\<close>\<close>

definition Message_function :: "nat \<Rightarrow> string \<Rightarrow> string \<Rightarrow> world \<Rightarrow> world option" where
  "Message_function MAX_DEBUG_TEXT_LENGTH functionName msg w =
     Message MAX_DEBUG_TEXT_LENGTH ''['' w
       \<bind> Message MAX_DEBUG_TEXT_LENGTH functionName
       \<bind> Message MAX_DEBUG_TEXT_LENGTH ''] ''
       \<bind> Message MAX_DEBUG_TEXT_LENGTH msg
       \<bind> Message MAX_DEBUG_TEXT_LENGTH [CHR 0x0A]"

text \<open>\<^verbatim>\<open>Message(const char * functionName, std::string msg)\<close>\<close>

definition Message_function_string :: "nat \<Rightarrow> string \<Rightarrow> string \<Rightarrow> world \<Rightarrow> world option" where
  "Message_function_string MAX_DEBUG_TEXT_LENGTH functionName msg w =
     Message MAX_DEBUG_TEXT_LENGTH ''['' w
       \<bind> Message MAX_DEBUG_TEXT_LENGTH functionName
       \<bind> Message MAX_DEBUG_TEXT_LENGTH ''] ''
       \<bind> Message MAX_DEBUG_TEXT_LENGTH (c_str msg)
       \<bind> Message MAX_DEBUG_TEXT_LENGTH [CHR 0x0A]"

text \<open>\<^verbatim>\<open>Message(const char * type, const char * functionName, const char * msg)\<close>\<close>

definition Message_type :: "nat \<Rightarrow> string \<Rightarrow> string \<Rightarrow> string \<Rightarrow> world \<Rightarrow> world option" where
  "Message_type MAX_DEBUG_TEXT_LENGTH type functionName msg w =
     Message MAX_DEBUG_TEXT_LENGTH type w
       \<bind> Message MAX_DEBUG_TEXT_LENGTH ''[''
       \<bind> Message MAX_DEBUG_TEXT_LENGTH functionName
       \<bind> Message MAX_DEBUG_TEXT_LENGTH ''] ''
       \<bind> Message MAX_DEBUG_TEXT_LENGTH msg
       \<bind> Message MAX_DEBUG_TEXT_LENGTH [CHR 0x0A]"

text \<open>
  \<^verbatim>\<open>Message(std::string type, const char * functionName, std::string msg)\<close>: the body
  makes no call for \<open>type\<close>.
\<close>

definition Message_type_string :: "nat \<Rightarrow> string \<Rightarrow> string \<Rightarrow> string \<Rightarrow> world \<Rightarrow> world option" where
  "Message_type_string MAX_DEBUG_TEXT_LENGTH type functionName msg w =
     Message MAX_DEBUG_TEXT_LENGTH ''['' w
       \<bind> Message MAX_DEBUG_TEXT_LENGTH functionName
       \<bind> Message MAX_DEBUG_TEXT_LENGTH ''] ''
       \<bind> Message MAX_DEBUG_TEXT_LENGTH (c_str msg)
       \<bind> Message MAX_DEBUG_TEXT_LENGTH [CHR 0x0A]"

subsection \<open>Debug::printf\<close>

text \<open>
  \<^verbatim>\<open>vsnprintf(strBuf, n, msgFmt, args)\<close> of the C library, for \<open>n > 0\<close>: of the complete
  rendering \<open>formatted\<close> of the format and its arguments, the first \<open>n - 1\<close> characters are
  stored, followed by a NUL.
\<close>

definition vsnprintf :: "nat \<Rightarrow> string \<Rightarrow> string" where
  "vsnprintf n formatted = take (n - 1) formatted"

text \<open>
  \<open>malloc_ok\<close> tells whether \<^verbatim>\<open>pvPortMalloc\<close> returns a block. \<^verbatim>\<open>Message(strBuf)\<close>
  reads the block as a C string: the stored characters up to the first NUL.
\<close>

definition printf :: "nat \<Rightarrow> string \<Rightarrow> bool \<Rightarrow> world \<Rightarrow> world option" where
  "printf MAX_DEBUG_TEXT_LENGTH formatted malloc_ok w =
     (case com (debugHandle w) of
        None \<Rightarrow> Some w
      | Some lspc \<Rightarrow>
          if \<not> Connected lspc then Some w
          else if \<not> malloc_ok then Some w
          else Message MAX_DEBUG_TEXT_LENGTH
                 (c_str (vsnprintf MAX_DEBUG_TEXT_LENGTH formatted)) w)"

subsection \<open>Debug::Error\<close>

text \<open>
  Where a run of \<^verbatim>\<open>Debug::Error\<close> stands after a number of rounds of its
  \<^verbatim>\<open>while (1)\<close>: back at the caller, at the head of the loop with the world as it is
  then, or inside a call of \<^verbatim>\<open>Message\<close> that does not return.
\<close>

datatype outcome =
    Returned world
  | In_loop world
  | In_Message

text \<open>
  The \<^verbatim>\<open>while (1)\<close> of \<^verbatim>\<open>Debug::Error\<close>, run for \<open>fuel\<close> rounds. The loop has no
  exit, so the only way to stop is to use up the fuel.
\<close>

fun Error_loop :: "nat \<Rightarrow> nat \<Rightarrow> string \<Rightarrow> string \<Rightarrow> string \<Rightarrow> world \<Rightarrow> outcome" where
  "Error_loop MAX_DEBUG_TEXT_LENGTH 0 type functionName msg w = In_loop w"
| "Error_loop MAX_DEBUG_TEXT_LENGTH (Suc fuel) type functionName msg w =
     (case Message_type MAX_DEBUG_TEXT_LENGTH type functionName msg w of
        None \<Rightarrow> In_Message
      | Some w1 \<Rightarrow>
          Error_loop MAX_DEBUG_TEXT_LENGTH fuel type functionName msg (osDelay 500 w1))"

definition Error :: "nat \<Rightarrow> nat \<Rightarrow> string \<Rightarrow> string \<Rightarrow> string \<Rightarrow> world \<Rightarrow> outcome" where
  "Error MAX_DEBUG_TEXT_LENGTH fuel type functionName msg w =
     Error_loop MAX_DEBUG_TEXT_LENGTH fuel type functionName msg
       (w\<lparr>trace := trace w @ [Breakpoint]\<rparr>)"

subsection \<open>Vocabulary of the statements\<close>

text \<open>A sequence of \<^verbatim>\<open>Message(const char *)\<close> calls, one after the other.\<close>

fun Message_calls :: "nat \<Rightarrow> string list \<Rightarrow> world \<Rightarrow> world option" where
  "Message_calls MAX_DEBUG_TEXT_LENGTH [] w = Some w"
| "Message_calls MAX_DEBUG_TEXT_LENGTH (msg # msgs) w =
     Message MAX_DEBUG_TEXT_LENGTH msg w \<bind> Message_calls MAX_DEBUG_TEXT_LENGTH msgs"

text \<open>The payloads of the transmit calls in a log, in order.\<close>

fun transmitted :: "event list \<Rightarrow> string list" where
  "transmitted [] = []"
| "transmitted (Transmit p # es) = p # transmitted es"
| "transmitted (e # es) = transmitted es"

text \<open>The bytes that are buffered and not yet sent.\<close>

definition buffered :: "world \<Rightarrow> string" where
  "buffered w = take (currentBufferLocation (debugHandle w)) (messageBuffer (debugHandle w))"

text \<open>Every byte accepted so far: what has been sent, then what is buffered.\<close>

definition emitted :: "world \<Rightarrow> string" where
  "emitted w = concat (transmitted (trace w)) @ buffered w"

text \<open>The world a caller of \<^verbatim>\<open>Debug::Error\<close> gets back, if it gets control back.\<close>

definition returned :: "outcome \<Rightarrow> world option" where
  "returned r = (case r of Returned w \<Rightarrow> Some w | In_loop w \<Rightarrow> None | In_Message \<Rightarrow> None)"

text \<open>
  A world after start-up: the static object is constructed, \<open>c\<close> is the channel pointer
  it holds, the buffer has its declared size and is empty, and nothing has happened yet.
\<close>

definition start_world :: "nat \<Rightarrow> LSPC option \<Rightarrow> world" where
  "start_world MAX_DEBUG_TEXT_LENGTH c =
     \<lparr>handleCreated = True,
      debugHandle = \<lparr>com = c, debugPulsePin = None,
                     messageBuffer = replicate MAX_DEBUG_TEXT_LENGTH (CHR 0x00),
                     currentBufferLocation = 0\<rparr>,
      trace = []\<rparr>"

section \<open>Properties\<close>

subsection \<open>Field access after the elementary steps\<close>

lemma set_fields [simp]:
  "debugHandle (set_currentBufferLocation n w) = (debugHandle w)\<lparr>currentBufferLocation := n\<rparr>"
  "trace (set_currentBufferLocation n w) = trace w"
  "handleCreated (set_currentBufferLocation n w) = handleCreated w"
  "debugHandle (set_messageBuffer b w) = (debugHandle w)\<lparr>messageBuffer := b\<rparr>"
  "trace (set_messageBuffer b w) = trace w"
  "handleCreated (set_messageBuffer b w) = handleCreated w"
  "debugHandle (TransmitAsync p n w) = debugHandle w"
  "trace (TransmitAsync p n w) = trace w @ [Transmit (take n p)]"
  "handleCreated (TransmitAsync p n w) = handleCreated w"
  "debugHandle (osDelay t w) = debugHandle w"
  "trace (osDelay t w) = trace w @ [Delay t]"
  "handleCreated (osDelay t w) = handleCreated w"
  by (simp_all add: set_currentBufferLocation_def set_messageBuffer_def TransmitAsync_def osDelay_def)

subsection \<open>The splitting loop\<close>

text \<open>Whenever the loop returns, it has touched nothing but the event log.\<close>

lemma Message_split_debugHandle:
  "Message_split cap p n w = Some w' \<Longrightarrow> debugHandle w' = debugHandle w"
proof (induction arbitrary: rule: Message_split.raw_induct [rotated, consumes 1])
  case (1 split cap p n w w')
  then show ?case by (auto simp: Let_def split: if_splits dest!: "1.IH")
qed

text \<open>Rounding up \<open>n / cap\<close>, one package at a time.\<close>

lemma ceil_zero: "0 < cap \<Longrightarrow> (0 + cap - 1) div cap = (0::nat)"
  by simp

lemma ceil_step_full:
  "0 < cap \<Longrightarrow> cap < n \<Longrightarrow> Suc ((n - cap + cap - 1) div cap) = (n + cap - 1) div (cap::nat)"
proof (cases n)
  case 0
  assume "cap < n" with 0 show ?thesis by simp
next
  case (Suc m)
  assume a: "0 < cap" "cap < n"
  have "(m + cap) div cap = Suc (m div cap)" using a(1) by (simp add: div_add_self2)
  moreover have "n + cap - 1 = m + cap" "n - cap + cap - 1 = m" using Suc a by simp_all
  ultimately show ?thesis by (simp only:)
qed

lemma ceil_step_last: "0 < n \<Longrightarrow> n \<le> cap \<Longrightarrow> (n + cap - 1) div cap = Suc 0"
proof (cases n)
  case 0
  assume "0 < n" with 0 show ?thesis by simp
next
  case (Suc m)
  assume a: "0 < n" "n \<le> cap"
  have "(m + cap) div cap = Suc (m div cap)" using Suc a by (simp add: div_add_self2)
  moreover have "m div cap = 0" using Suc a by simp
  moreover have "n + cap - 1 = m + cap" using Suc by simp
  ultimately show ?thesis by simp
qed

text \<open>
  For a positive package size the loop returns, and it sends the first \<open>n\<close> characters
  of the text in packages of full size, the last one holding the rest.
\<close>

lemma Message_split_chunks:
  "0 < cap \<Longrightarrow> n \<le> length p \<Longrightarrow>
   \<exists>chunks. Message_split cap p n w = Some (w\<lparr>trace := trace w @ map Transmit chunks\<rparr>)
     \<and> concat chunks = take n p
     \<and> length chunks = (n + cap - 1) div cap
     \<and> (\<forall>c \<in> set (butlast chunks). length c = cap)
     \<and> (0 < n \<longrightarrow> chunks \<noteq> [] \<and> length (last chunks) = (if n mod cap = 0 then cap else n mod cap))"
proof (induction n arbitrary: p w rule: less_induct)
  case (less n)
  show ?case
  proof (cases "n = 0")
    case True
    then have "Message_split cap p n w = Some w"
      by (subst Message_split.simps) simp
    with True ceil_zero [OF less.prems(1)] show ?thesis
      by (intro exI [of _ "[]"]) simp
  next
    case pos: False
    show ?thesis
    proof (cases "cap < n")
      case True
      let ?w1 = "TransmitAsync p cap w"
      have lt: "n - cap < n" and le: "n - cap \<le> length (drop cap p)"
        using less.prems True by simp_all
      from less.IH [OF lt less.prems(1) le, of ?w1]
      obtain cs where cs:
        "Message_split cap (drop cap p) (n - cap) ?w1 = Some (?w1\<lparr>trace := trace ?w1 @ map Transmit cs\<rparr>)"
        "concat cs = take (n - cap) (drop cap p)"
        "length cs = (n - cap + cap - 1) div cap"
        "\<forall>c \<in> set (butlast cs). length c = cap"
        "0 < n - cap \<longrightarrow> cs \<noteq> [] \<and> length (last cs) = (if (n - cap) mod cap = 0 then cap else (n - cap) mod cap)"
        by (elim exE conjE) (rule that)
      have ne: "cs \<noteq> []" using cs(5) True by simp
      have step: "Message_split cap p n w = Message_split cap (drop cap p) (n - cap) ?w1"
        using True pos by (subst Message_split.simps) simp
      have len: "length (take cap p) = cap" using True less.prems by simp
      have modeq: "(n - cap) mod cap = n mod cap" using True by (simp add: le_mod_geq)
      have f1: "Message_split cap p n w = Some (w\<lparr>trace := trace w @ map Transmit (take cap p # cs)\<rparr>)"
        using step cs(1) by (simp add: TransmitAsync_def)
      have f2: "concat (take cap p # cs) = take n p"
      proof -
        have "take n p = take (cap + (n - cap)) p" using True by simp
        also have "\<dots> = take cap p @ take (n - cap) (drop cap p)" by (rule take_add)
        finally show ?thesis using cs(2) by simp
      qed
      have f3: "length (take cap p # cs) = (n + cap - 1) div cap"
        using cs(3) ceil_step_full [OF less.prems(1) True] by simp
      have f4: "\<forall>c \<in> set (butlast (take cap p # cs)). length c = cap"
        using cs(4) ne len by simp
      have f5: "take cap p # cs \<noteq> []" by simp
      have f6: "length (last (take cap p # cs)) = (if n mod cap = 0 then cap else n mod cap)"
        using cs(5) ne True modeq by simp
      show ?thesis
        by (intro exI [of _ "take cap p # cs"] conjI impI) (rule f1 f2 f3 f4 f5 f6)+
    next
      case False
      let ?w1 = "TransmitAsync p n w"
      have "Message_split cap p n w = Message_split cap (drop n p) (n - n) ?w1"
        using False pos by (subst Message_split.simps) (simp add: Let_def)
      also have "\<dots> = Some ?w1" by (subst Message_split.simps) simp
      finally have f1: "Message_split cap p n w = Some (w\<lparr>trace := trace w @ map Transmit [take n p]\<rparr>)"
        by (simp add: TransmitAsync_def)
      have f2: "concat [take n p] = take n p" by simp
      have f3: "length [take n p] = (n + cap - 1) div cap"
        using ceil_step_last [of n cap] pos False by simp
      have f4: "\<forall>c \<in> set (butlast [take n p]). length c = cap" by simp
      have f5: "[take n p] \<noteq> []" by simp
      have f6: "length (last [take n p]) = (if n mod cap = 0 then cap else n mod cap)"
        using pos False less.prems by (cases "n = cap") simp_all
      show ?thesis
        by (intro exI [of _ "[take n p]"] conjI impI) (rule f1 f2 f3 f4 f5 f6)+
    qed
  qed
qed

subsection \<open>Every call of Message returns\<close>

lemma Message_total:
  assumes "0 < cap"
  shows "\<exists>w' ps. Message cap msg w = Some w' \<and> trace w' = trace w @ map Transmit ps
           \<and> handleCreated w' = handleCreated w
           \<and> com (debugHandle w') = com (debugHandle w)"
proof (cases "\<exists>l. com (debugHandle w) = Some l \<and> Connected l")
  case False
  then have "Message cap msg w = Some w"
    by (auto simp: Message_def split: option.splits)
  then show ?thesis
    by (intro exI [of _ w] exI [of _ "[]"]) simp
next
  case True
  then obtain l where l: "com (debugHandle w) = Some l" "Connected l" by blast
  let ?n = "length msg mod 65536"
  show ?thesis
  proof (cases "cap < ?n")
    case False
    with l have "Message cap msg w = Some (Message_fit cap msg ?n w)"
      by (simp add: Message_def)
    moreover have "\<exists>ps. trace (Message_fit cap msg ?n w) = trace w @ map Transmit ps"
    proof (cases "int ?n > int cap - int (currentBufferLocation (debugHandle w))")
      case True
      then have "trace (Message_fit cap msg ?n w)
        = trace w @ map Transmit [take (currentBufferLocation (debugHandle w)) (messageBuffer (debugHandle w))]"
        by (simp add: Message_fit_def Let_def)
      then show ?thesis by blast
    next
      case False
      then have "trace (Message_fit cap msg ?n w) = trace w @ map Transmit []"
        by (simp add: Message_fit_def Let_def)
      then show ?thesis by blast
    qed
    moreover have "handleCreated (Message_fit cap msg ?n w) = handleCreated w"
      "com (debugHandle (Message_fit cap msg ?n w)) = com (debugHandle w)"
      by (simp_all add: Message_fit_def Let_def)
    ultimately show ?thesis by blast
  next
    case True
    let ?w0 = "set_currentBufferLocation 0
                 (TransmitAsync (messageBuffer (debugHandle w)) (currentBufferLocation (debugHandle w)) w)"
    have le: "?n \<le> length msg" by simp
    from Message_split_chunks [OF assms le, of ?w0]
    obtain cs where cs: "Message_split cap msg ?n ?w0 = Some (?w0\<lparr>trace := trace ?w0 @ map Transmit cs\<rparr>)"
      by blast
    let ?w' = "?w0\<lparr>trace := trace ?w0 @ map Transmit cs\<rparr>"
    have "Message cap msg w = Some ?w'"
      using True l cs by (simp add: Message_def)
    moreover have "trace ?w' = trace w @ map Transmit
       (take (currentBufferLocation (debugHandle w)) (messageBuffer (debugHandle w)) # cs)"
      by simp
    moreover have "handleCreated ?w' = handleCreated w" "com (debugHandle ?w') = com (debugHandle w)"
      by simp_all
    ultimately show ?thesis by blast
  qed
qed

subsection \<open>Calls that fit into the buffer\<close>

text \<open>
  A message that fits behind the buffered bytes is copied there; nothing is sent.
\<close>

lemma Message_fits:
  assumes "com (debugHandle w) = Some l" and "Connected l"
    and "length (messageBuffer (debugHandle w)) = cap" and "cap < 65536"
    and "currentBufferLocation (debugHandle w) + length msg \<le> cap"
  shows "\<exists>w'. Message cap msg w = Some w'
           \<and> buffered w' = buffered w @ msg
           \<and> currentBufferLocation (debugHandle w') = currentBufferLocation (debugHandle w) + length msg
           \<and> trace w' = trace w
           \<and> com (debugHandle w') = com (debugHandle w)
           \<and> length (messageBuffer (debugHandle w')) = cap"
proof -
  let ?k = "currentBufferLocation (debugHandle w)"
  let ?b = "messageBuffer (debugHandle w)"
  let ?w' = "Message_fit cap msg (length msg) w"
  have n: "length msg mod 65536 = length msg" using assms(4,5) by simp
  have fit: "\<not> cap < length msg" using assms(5) by simp
  have noflush: "\<not> int (length msg) > int cap - int ?k" using assms(5) by simp
  have m: "Message cap msg w = Some ?w'"
    using assms(1,2) fit by (simp add: Message_def n)
  have dh: "debugHandle ?w' = (debugHandle w)\<lparr>messageBuffer := memcpy ?b ?k msg (length msg),
              currentBufferLocation := ?k + length msg\<rparr>"
    using noflush by (simp add: Message_fit_def Let_def)
  have tr: "trace ?w' = trace w"
    using noflush by (simp add: Message_fit_def Let_def)
  have kb: "?k \<le> length ?b" using assms(3,5) by simp
  have buf: "buffered ?w' = buffered w @ msg"
    using kb by (simp add: buffered_def dh memcpy_def)
  have len: "length (messageBuffer (debugHandle ?w')) = cap"
    using assms(3,5) by (simp add: dh memcpy_def)
  have cur: "currentBufferLocation (debugHandle ?w') = ?k + length msg" by (simp add: dh)
  have cm: "com (debugHandle ?w') = com (debugHandle w)" by (simp add: dh)
  show ?thesis
    by (intro exI [of _ ?w'] conjI) (rule m buf cur tr cm len)+
qed

lemma Message_calls_fit:
  assumes "com (debugHandle w) = Some l" and "Connected l"
    and "length (messageBuffer (debugHandle w)) = cap" and "cap < 65536"
    and "currentBufferLocation (debugHandle w) + length (concat msgs) \<le> cap"
  shows "\<exists>w'. Message_calls cap msgs w = Some w'
           \<and> buffered w' = buffered w @ concat msgs
           \<and> currentBufferLocation (debugHandle w')
               = currentBufferLocation (debugHandle w) + length (concat msgs)
           \<and> trace w' = trace w"
  using assms
proof (induction msgs arbitrary: w)
  case Nil
  show ?case by simp
next
  case (Cons msg msgs)
  have le: "currentBufferLocation (debugHandle w) + length msg \<le> cap"
    using Cons.prems(5) by simp
  from Message_fits [OF Cons.prems(1,2,3,4) le]
  obtain w1 where w1: "Message cap msg w = Some w1"
    "buffered w1 = buffered w @ msg"
    "currentBufferLocation (debugHandle w1) = currentBufferLocation (debugHandle w) + length msg"
    "trace w1 = trace w" "com (debugHandle w1) = com (debugHandle w)"
    "length (messageBuffer (debugHandle w1)) = cap"
    by blast
  have c1: "com (debugHandle w1) = Some l" using w1(5) Cons.prems(1) by simp
  have le1: "currentBufferLocation (debugHandle w1) + length (concat msgs) \<le> cap"
    using w1(3) Cons.prems(5) by simp
  from Cons.IH [OF c1 Cons.prems(2) w1(6) Cons.prems(4) le1]
  obtain w' where w': "Message_calls cap msgs w1 = Some w'"
    "buffered w' = buffered w1 @ concat msgs"
    "currentBufferLocation (debugHandle w') = currentBufferLocation (debugHandle w1) + length (concat msgs)"
    "trace w' = trace w1"
    by blast
  have "Message_calls cap (msg # msgs) w = Some w'" using w1(1) w'(1) by simp
  moreover have "buffered w' = buffered w @ concat (msg # msgs)" using w1(2) w'(2) by simp
  moreover have "currentBufferLocation (debugHandle w')
      = currentBufferLocation (debugHandle w) + length (concat (msg # msgs))"
    using w1(3) w'(3) by simp
  moreover have "trace w' = trace w" using w1(4) w'(4) by simp
  ultimately show ?case by blast
qed

subsection \<open>The composite overloads as sequences of calls\<close>

lemma Message_calls_Nil: "Message_calls cap [] = Some"
  by (rule ext) simp

lemma Message_calls_Cons:
  "Message_calls cap (m # ms) = (\<lambda>w. Message cap m w \<bind> Message_calls cap ms)"
  by (rule ext) simp

lemma Message_type_calls:
  "Message_type cap ty fn msg w = Message_calls cap [ty, ''['', fn, ''] '', msg, [CHR 0x0A]] w"
  by (simp add: Message_type_def Message_calls_Cons Message_calls_Nil)

lemma Message_type_string_calls:
  "Message_type_string cap ty fn msg w
     = Message_calls cap [''['', fn, ''] '', c_str msg, [CHR 0x0A]] w"
  by (simp add: Message_type_string_def Message_calls_Cons Message_calls_Nil)

subsection \<open>The bytes a call accepts\<close>

text \<open>
  On a connected channel a call of \<^verbatim>\<open>Message\<close> adds its text, and nothing else, to the
  bytes that are sent or buffered, in whichever of its three branches.
\<close>

lemma transmitted_append: "transmitted (es @ fs) = transmitted es @ transmitted fs"
  by (induction es rule: transmitted.induct) simp_all

lemma transmitted_Transmit: "transmitted (map Transmit ps) = ps"
  by (induction ps) simp_all

lemma Message_emitted:
  assumes "0 < cap" and "com (debugHandle w) = Some l" and "Connected l"
    and "length (messageBuffer (debugHandle w)) = cap"
    and "currentBufferLocation (debugHandle w) \<le> cap"
    and "length msg < 65536"
  shows "\<exists>w'. Message cap msg w = Some w'
           \<and> emitted w' = emitted w @ msg
           \<and> com (debugHandle w') = Some l
           \<and> length (messageBuffer (debugHandle w')) = cap
           \<and> currentBufferLocation (debugHandle w') \<le> cap"
proof -
  let ?k = "currentBufferLocation (debugHandle w)"
  let ?b = "messageBuffer (debugHandle w)"
  have n: "length msg mod 65536 = length msg" using assms(6) by simp
  show ?thesis
  proof (cases "cap < length msg")
    case True
    let ?w0 = "set_currentBufferLocation 0 (TransmitAsync ?b ?k w)"
    from Message_split_chunks [OF assms(1) order_refl, of msg ?w0]
    obtain cs where cs:
      "Message_split cap msg (length msg) ?w0 = Some (?w0\<lparr>trace := trace ?w0 @ map Transmit cs\<rparr>)"
      "concat cs = take (length msg) msg"
      by blast
    let ?w' = "?w0\<lparr>trace := trace ?w0 @ map Transmit cs\<rparr>"
    have m: "Message cap msg w = Some ?w'"
      using True assms(2,3) cs(1) by (simp add: Message_def n)
    have e: "emitted ?w' = emitted w @ msg"
      using cs(2) by (simp add: emitted_def buffered_def transmitted_append transmitted_Transmit)
    have c: "com (debugHandle ?w') = Some l" using assms(2) by simp
    have b: "length (messageBuffer (debugHandle ?w')) = cap" using assms(4) by simp
    have f: "currentBufferLocation (debugHandle ?w') \<le> cap" by simp
    show ?thesis
      by (intro exI [of _ ?w'] conjI) (rule m e c b f)+
  next
    case False
    let ?w' = "Message_fit cap msg (length msg) w"
    have m: "Message cap msg w = Some ?w'"
      using False assms(2,3) by (simp add: Message_def n)
    show ?thesis
    proof (cases "int (length msg) > int cap - int ?k")
      case True
      have dh: "debugHandle ?w' = (debugHandle w)\<lparr>messageBuffer := memcpy ?b 0 msg (length msg),
                  currentBufferLocation := length msg\<rparr>"
        using True by (simp add: Message_fit_def Let_def)
      have tr: "trace ?w' = trace w @ [Transmit (take ?k ?b)]"
        using True by (simp add: Message_fit_def Let_def)
      have e: "emitted ?w' = emitted w @ msg"
        by (simp add: emitted_def buffered_def dh tr memcpy_def transmitted_append)
      have c: "com (debugHandle ?w') = Some l" using assms(2) by (simp add: dh)
      have b: "length (messageBuffer (debugHandle ?w')) = cap"
        using False assms(4) by (simp add: dh memcpy_def)
      have f: "currentBufferLocation (debugHandle ?w') \<le> cap" using False by (simp add: dh)
      show ?thesis
        by (intro exI [of _ ?w'] conjI) (rule m e c b f)+
    next
      case noflush: False
      have le: "?k + length msg \<le> cap" using noflush assms(5) by simp
      have dh: "debugHandle ?w' = (debugHandle w)\<lparr>messageBuffer := memcpy ?b ?k msg (length msg),
                  currentBufferLocation := ?k + length msg\<rparr>"
        using noflush by (simp add: Message_fit_def Let_def)
      have tr: "trace ?w' = trace w"
        using noflush by (simp add: Message_fit_def Let_def)
      have kb: "?k \<le> length ?b" using assms(4,5) by simp
      have e: "emitted ?w' = emitted w @ msg"
        using kb by (simp add: emitted_def buffered_def dh tr memcpy_def)
      have c: "com (debugHandle ?w') = Some l" using assms(2) by (simp add: dh)
      have b: "length (messageBuffer (debugHandle ?w')) = cap"
        using le assms(4) by (simp add: dh memcpy_def)
      have f: "currentBufferLocation (debugHandle ?w') \<le> cap" using le by (simp add: dh)
      show ?thesis
        by (intro exI [of _ ?w'] conjI) (rule m e c b f)+
    qed
  qed
qed

lemma Message_type_trace:
  assumes "0 < cap"
  shows "\<exists>w' ps. Message_type cap ty fn msg w = Some w' \<and> trace w' = trace w @ map Transmit ps"
proof -
  obtain w1 p1 where 1: "Message cap ty w = Some w1" "trace w1 = trace w @ map Transmit p1"
    using Message_total [OF assms] by blast
  obtain w2 p2 where 2: "Message cap ''['' w1 = Some w2" "trace w2 = trace w1 @ map Transmit p2"
    using Message_total [OF assms] by blast
  obtain w3 p3 where 3: "Message cap fn w2 = Some w3" "trace w3 = trace w2 @ map Transmit p3"
    using Message_total [OF assms] by blast
  obtain w4 p4 where 4: "Message cap ''] '' w3 = Some w4" "trace w4 = trace w3 @ map Transmit p4"
    using Message_total [OF assms] by blast
  obtain w5 p5 where 5: "Message cap msg w4 = Some w5" "trace w5 = trace w4 @ map Transmit p5"
    using Message_total [OF assms] by blast
  obtain w6 p6 where 6: "Message cap [CHR 0x0A] w5 = Some w6" "trace w6 = trace w5 @ map Transmit p6"
    using Message_total [OF assms] by blast
  have "Message_type cap ty fn msg w = Some w6"
    by (simp add: Message_type_def 1 2 3 4 5 6)
  moreover have "trace w6 = trace w @ map Transmit (p1 @ p2 @ p3 @ p4 @ p5 @ p6)"
    by (simp add: 1 2 3 4 5 6)
  ultimately show ?thesis by blast
qed

lemma Message_type_emitted:
  assumes "0 < cap" and "com (debugHandle w) = Some l" and "Connected l"
    and "length (messageBuffer (debugHandle w)) = cap"
    and "currentBufferLocation (debugHandle w) \<le> cap"
    and "length ty < 65536" and "length fn < 65536" and "length msg < 65536"
  shows "\<exists>w'. Message_type cap ty fn msg w = Some w'
           \<and> emitted w' = emitted w @ ty @ ''['' @ fn @ ''] '' @ msg @ [CHR 0x0A]
           \<and> com (debugHandle w') = Some l
           \<and> length (messageBuffer (debugHandle w')) = cap
           \<and> currentBufferLocation (debugHandle w') \<le> cap"
proof -
  note step = Message_emitted [OF assms(1) _ assms(3)]
  from step [OF assms(2,4,5,6)]
  obtain w1 where 1: "Message cap ty w = Some w1" "emitted w1 = emitted w @ ty"
    "com (debugHandle w1) = Some l" "length (messageBuffer (debugHandle w1)) = cap"
    "currentBufferLocation (debugHandle w1) \<le> cap"
    by blast
  have "length ''['' < 65536" by simp
  from step [OF 1(3,4,5) this]
  obtain w2 where 2: "Message cap ''['' w1 = Some w2" "emitted w2 = emitted w1 @ ''[''"
    "com (debugHandle w2) = Some l" "length (messageBuffer (debugHandle w2)) = cap"
    "currentBufferLocation (debugHandle w2) \<le> cap"
    by blast
  from step [OF 2(3,4,5) assms(7)]
  obtain w3 where 3: "Message cap fn w2 = Some w3" "emitted w3 = emitted w2 @ fn"
    "com (debugHandle w3) = Some l" "length (messageBuffer (debugHandle w3)) = cap"
    "currentBufferLocation (debugHandle w3) \<le> cap"
    by blast
  have "length ''] '' < 65536" by simp
  from step [OF 3(3,4,5) this]
  obtain w4 where 4: "Message cap ''] '' w3 = Some w4" "emitted w4 = emitted w3 @ ''] ''"
    "com (debugHandle w4) = Some l" "length (messageBuffer (debugHandle w4)) = cap"
    "currentBufferLocation (debugHandle w4) \<le> cap"
    by blast
  from step [OF 4(3,4,5) assms(8)]
  obtain w5 where 5: "Message cap msg w4 = Some w5" "emitted w5 = emitted w4 @ msg"
    "com (debugHandle w5) = Some l" "length (messageBuffer (debugHandle w5)) = cap"
    "currentBufferLocation (debugHandle w5) \<le> cap"
    by blast
  have "length [CHR 0x0A] < 65536" by simp
  from step [OF 5(3,4,5) this]
  obtain w6 where 6: "Message cap [CHR 0x0A] w5 = Some w6" "emitted w6 = emitted w5 @ [CHR 0x0A]"
    "com (debugHandle w6) = Some l" "length (messageBuffer (debugHandle w6)) = cap"
    "currentBufferLocation (debugHandle w6) \<le> cap"
    by blast
  have m: "Message_type cap ty fn msg w = Some w6"
    by (simp add: Message_type_def 1(1) 2(1) 3(1) 4(1) 5(1) 6(1))
  have e: "emitted w6 = emitted w @ ty @ ''['' @ fn @ ''] '' @ msg @ [CHR 0x0A]"
    by (simp add: 1(2) 2(2) 3(2) 4(2) 5(2) 6(2))
  show ?thesis
    by (intro exI [of _ w6] conjI) (rule m e 6(3) 6(4) 6(5))+
qed

lemma emitted_osDelay: "emitted (osDelay t w) = emitted w"
  by (simp add: emitted_def buffered_def transmitted_append)

lemma emitted_Breakpoint: "emitted (w\<lparr>trace := trace w @ [Breakpoint]\<rparr>) = emitted w"
  by (simp add: emitted_def buffered_def transmitted_append)

subsection \<open>The rounds of the error loop\<close>

lemma Error_loop_not_Returned: "Error_loop cap fuel ty fn msg w \<noteq> Returned w'"
  by (induction fuel arbitrary: w) (simp_all split: option.splits)

lemma Error_loop_last_round:
  "Error_loop cap (Suc fuel) ty fn msg w
     = (case Error_loop cap fuel ty fn msg w of
          In_loop w1 \<Rightarrow>
            (case Message_type cap ty fn msg w1 of
               None \<Rightarrow> In_Message
             | Some w2 \<Rightarrow> In_loop (osDelay 500 w2))
        | r \<Rightarrow> r)"
proof (induction fuel arbitrary: w)
  case 0
  show ?case by (simp split: option.splits)
next
  case (Suc fuel)
  show ?case
  proof (cases "Message_type cap ty fn msg w")
    case None
    then show ?thesis by simp
  next
    case (Some w1)
    have "Error_loop cap (Suc (Suc fuel)) ty fn msg w
            = Error_loop cap (Suc fuel) ty fn msg (osDelay 500 w1)"
      using Some by simp
    also note Suc [of "osDelay 500 w1"]
    finally show ?thesis using Some by simp
  qed
qed

lemma Error_loop_trace:
  assumes "0 < cap"
  shows "\<exists>w' pss. Error_loop cap fuel ty fn msg w = In_loop w'
           \<and> length pss = fuel
           \<and> trace w' = trace w @ concat (map (\<lambda>ps. map Transmit ps @ [Delay 500]) pss)"
proof (induction fuel arbitrary: w)
  case 0
  have "Error_loop cap 0 ty fn msg w = In_loop w
      \<and> length ([] :: string list list) = 0
      \<and> trace w = trace w @ concat (map (\<lambda>ps. map Transmit ps @ [Delay 500]) [])"
    by simp
  then show ?case by blast
next
  case (Suc fuel)
  obtain w1 ps where 1: "Message_type cap ty fn msg w = Some w1"
    "trace w1 = trace w @ map Transmit ps"
    using Message_type_trace [OF assms] by blast
  from Suc [of "osDelay 500 w1"]
  obtain w' pss where 2: "Error_loop cap fuel ty fn msg (osDelay 500 w1) = In_loop w'"
    "length pss = fuel"
    "trace w' = trace (osDelay 500 w1) @ concat (map (\<lambda>ps. map Transmit ps @ [Delay 500]) pss)"
    by blast
  have "Error_loop cap (Suc fuel) ty fn msg w = In_loop w'
      \<and> length (ps # pss) = Suc fuel
      \<and> trace w' = trace w @ concat (map (\<lambda>ps. map Transmit ps @ [Delay 500]) (ps # pss))"
    using 1 2 by simp
  then show ?case by blast
qed

lemma Error_loop_emitted:
  assumes "0 < cap" and "com (debugHandle w) = Some l" and "Connected l"
    and "length (messageBuffer (debugHandle w)) = cap"
    and "currentBufferLocation (debugHandle w) \<le> cap"
    and "length ty < 65536" and "length fn < 65536" and "length msg < 65536"
  shows "\<exists>w'. Error_loop cap fuel ty fn msg w = In_loop w'
           \<and> emitted w' = emitted w
                @ concat (replicate fuel (ty @ ''['' @ fn @ ''] '' @ msg @ [CHR 0x0A]))"
  using assms(2,4,5)
proof (induction fuel arbitrary: w)
  case 0
  show ?case by simp
next
  case (Suc fuel)
  from Message_type_emitted [OF assms(1) Suc.prems(1) assms(3) Suc.prems(2,3) assms(6,7,8)]
  obtain w1 where 1: "Message_type cap ty fn msg w = Some w1"
    "emitted w1 = emitted w @ ty @ ''['' @ fn @ ''] '' @ msg @ [CHR 0x0A]"
    "com (debugHandle w1) = Some l" "length (messageBuffer (debugHandle w1)) = cap"
    "currentBufferLocation (debugHandle w1) \<le> cap"
    by blast
  have "com (debugHandle (osDelay 500 w1)) = Some l"
    "length (messageBuffer (debugHandle (osDelay 500 w1))) = cap"
    "currentBufferLocation (debugHandle (osDelay 500 w1)) \<le> cap"
    using 1(3,4,5) by simp_all
  from Suc.IH [OF this]
  obtain w' where "Error_loop cap fuel ty fn msg (osDelay 500 w1) = In_loop w'"
    "emitted w' = emitted (osDelay 500 w1)
                @ concat (replicate fuel (ty @ ''['' @ fn @ ''] '' @ msg @ [CHR 0x0A]))"
    by blast
  with 1(1,2) show ?case by (simp add: emitted_osDelay)
qed

subsection \<open>The constructor, were ERROR the fatal path\<close>

text \<open>
  Should \<^verbatim>\<open>ERROR\<close> expand to a call of \<^verbatim>\<open>Debug::Error\<close>, a duplicate construction
  would not return.
\<close>

lemma Debug_ctor_duplicate_fatal:
  "handleCreated w \<Longrightarrow>
   Debug_ctor (\<lambda>m v. returned (Error cap fuel ''ERROR: '' ''Debug'' m v)) this w = None"
proof -
  assume h: "handleCreated w"
  have "returned (Error cap fuel ''ERROR: '' ''Debug'' m v) = None" for m v
    using Error_loop_not_Returned [of cap fuel "''ERROR: ''" "''Debug''" m]
    by (cases "Error cap fuel ''ERROR: '' ''Debug'' m v") (simp_all add: returned_def Error_def)
  with h show ?thesis by (simp add: Debug_ctor_def)
qed

subsection \<open>A cut rendering read as a C string\<close>

lemma takeWhile_take: "takeWhile P (take n xs) = take n (takeWhile P xs)"
proof (induction xs arbitrary: n)
  case Nil
  show ?case by simp
next
  case (Cons x xs)
  show ?case by (cases n) (simp_all add: Cons)
qed

section \<open>The claims\<close>

text \<open>
  C1, with the length bounded by the 16-bit variable that holds it. Let the capacity be
  positive, the channel bound and connected, and \<open>capacity < length msg < 65536\<close>. Then one
  call of \<^verbatim>\<open>Message\<close> sends what is buffered, sets the fill level to 0, and then sends
  \<open>msg\<close> in chunks, in order: their concatenation is \<open>msg\<close>, every chunk but the last
  has the size of the capacity, and the last one has \<open>length msg mod capacity\<close>
  characters, or as many as the capacity when that is 0. There are
  \<open>(length msg + capacity - 1) div capacity\<close> chunks.
\<close>

theorem Message_long_chunks:
  assumes "0 < cap" and "cap < length msg" and "length msg < 65536"
    and "com (debugHandle w) = Some l" and "Connected l"
  shows "\<exists>chunks.
           Message cap msg w
             = Some (w\<lparr>debugHandle := (debugHandle w)\<lparr>currentBufferLocation := 0\<rparr>,
                       trace := trace w @ Transmit (buffered w) # map Transmit chunks\<rparr>)
         \<and> concat chunks = msg
         \<and> chunks \<noteq> []
         \<and> (\<forall>c \<in> set (butlast chunks). length c = cap)
         \<and> length (last chunks)
             = (if length msg mod cap = 0 then cap else length msg mod cap)
         \<and> length chunks = (length msg + cap - 1) div cap"
proof -
  let ?w0 = "set_currentBufferLocation 0
               (TransmitAsync (messageBuffer (debugHandle w)) (currentBufferLocation (debugHandle w)) w)"
  have n: "length msg mod 65536 = length msg" using assms(3) by simp
  have pos: "0 < length msg" using assms(2) by (cases msg) simp_all
  from Message_split_chunks [OF assms(1) order_refl, of msg ?w0]
  obtain cs where cs:
    "Message_split cap msg (length msg) ?w0 = Some (?w0\<lparr>trace := trace ?w0 @ map Transmit cs\<rparr>)"
    "concat cs = take (length msg) msg"
    "length cs = (length msg + cap - 1) div cap"
    "\<forall>c \<in> set (butlast cs). length c = cap"
    "0 < length msg \<longrightarrow> cs \<noteq> [] \<and> length (last cs) = (if length msg mod cap = 0 then cap else length msg mod cap)"
    by blast
  have f1: "Message cap msg w
             = Some (w\<lparr>debugHandle := (debugHandle w)\<lparr>currentBufferLocation := 0\<rparr>,
                       trace := trace w @ Transmit (buffered w) # map Transmit cs\<rparr>)"
    using assms(2,4,5) cs(1)
    by (simp add: Message_def n buffered_def set_currentBufferLocation_def TransmitAsync_def)
  have f2: "concat cs = msg" using cs(2) by simp
  have f3: "cs \<noteq> []" using cs(5) pos by simp
  have f4: "length (last cs) = (if length msg mod cap = 0 then cap else length msg mod cap)"
    using cs(5) pos by simp
  show ?thesis
    by (intro exI [of _ cs] conjI) (rule f1 f2 f3 cs(4) f4 cs(3))+
qed

theorem Message_long_chunks_witness:
  "\<exists>chunks.
     Message 4 ''HELLOWORLD'' (start_world 4 (Some \<lparr>Connected = True\<rparr>))
       = Some (start_world 4 (Some \<lparr>Connected = True\<rparr>)
                 \<lparr>trace := Transmit [] # map Transmit chunks\<rparr>)
     \<and> concat chunks = ''HELLOWORLD'' \<and> chunks \<noteq> [] \<and> length (last chunks) = 2"
proof -
  have "\<exists>chunks.
           Message 4 ''HELLOWORLD'' (start_world 4 (Some \<lparr>Connected = True\<rparr>))
             = Some ((start_world 4 (Some \<lparr>Connected = True\<rparr>))
                      \<lparr>debugHandle := (debugHandle (start_world 4 (Some \<lparr>Connected = True\<rparr>)))\<lparr>currentBufferLocation := 0\<rparr>,
                       trace := trace (start_world 4 (Some \<lparr>Connected = True\<rparr>))
                           @ Transmit (buffered (start_world 4 (Some \<lparr>Connected = True\<rparr>))) # map Transmit chunks\<rparr>)
         \<and> concat chunks = ''HELLOWORLD''
         \<and> chunks \<noteq> []
         \<and> (\<forall>c \<in> set (butlast chunks). length c = 4)
         \<and> length (last chunks)
             = (if length ''HELLOWORLD'' mod 4 = 0 then 4 else length ''HELLOWORLD'' mod 4)
         \<and> length chunks = (length ''HELLOWORLD'' + 4 - 1) div 4"
    by (rule Message_long_chunks [where l = "\<lparr>Connected = True\<rparr>"]) (simp_all add: start_world_def)
  then obtain cs where
    "Message 4 ''HELLOWORLD'' (start_world 4 (Some \<lparr>Connected = True\<rparr>))
       = Some (start_world 4 (Some \<lparr>Connected = True\<rparr>)\<lparr>trace := Transmit [] # map Transmit cs\<rparr>)"
    "concat cs = ''HELLOWORLD''" "cs \<noteq> []" "length (last cs) = 2"
    by (auto simp: start_world_def buffered_def)
  then show ?thesis by blast
qed

text \<open>
  C1 as stated fails for a text of 65536 characters or more: of 65541 characters, with
  capacity 4, only the first 5 are sent.
\<close>

theorem Message_length_wraps_counterexample:
  "length (replicate 65541 (CHR ''x'')) = 65541
   \<and> map_option (transmitted \<circ> trace)
       (Message 4 (replicate 65541 (CHR ''x'')) (start_world 4 (Some \<lparr>Connected = True\<rparr>)))
     = Some ['''', ''xxxx'', ''x'']"
proof -
  have r4: "replicate 4 c = [c, c, c, c]" for c :: char
    by (simp add: numeral_eq_Suc)
  show ?thesis
    by (simp add: Message_def start_world_def Message_split.simps r4)
qed

text \<open>
  C2. Starting from an empty buffer of the declared size, with a bound and connected
  channel and a capacity below 65536, a sequence of \<^verbatim>\<open>Message\<close> calls whose texts have a
  combined length within the capacity leaves their concatenation, in call order, in the
  buffer; the fill level is the combined length and nothing has been sent.
\<close>

theorem Message_calls_buffer:
  assumes "com (debugHandle w) = Some l" and "Connected l"
    and "currentBufferLocation (debugHandle w) = 0"
    and "length (messageBuffer (debugHandle w)) = cap" and "cap < 65536"
    and "sum_list (map length msgs) \<le> cap"
  shows "\<exists>w'. Message_calls cap msgs w = Some w'
           \<and> buffered w' = concat msgs
           \<and> currentBufferLocation (debugHandle w') = sum_list (map length msgs)
           \<and> trace w' = trace w"
proof -
  have le: "currentBufferLocation (debugHandle w) + length (concat msgs) \<le> cap"
    using assms(3,6) by (simp add: length_concat)
  have b0: "buffered w = []" using assms(3) by (simp add: buffered_def)
  from Message_calls_fit [OF assms(1,2,4,5) le] show ?thesis
    using assms(3) b0 by (simp add: length_concat)
qed

theorem Message_calls_buffer_witness:
  "\<exists>w'. Message_calls 4 [''ab'', ''cd''] (start_world 4 (Some \<lparr>Connected = True\<rparr>)) = Some w'
      \<and> buffered w' = ''abcd''
      \<and> currentBufferLocation (debugHandle w') = 4
      \<and> trace w' = []"
proof -
  let ?w = "start_world 4 (Some \<lparr>Connected = True\<rparr>)"
  have "\<exists>w'. Message_calls 4 [''ab'', ''cd''] ?w = Some w'
           \<and> buffered w' = concat [''ab'', ''cd'']
           \<and> currentBufferLocation (debugHandle w') = sum_list (map length [''ab'', ''cd''])
           \<and> trace w' = trace ?w"
    by (rule Message_calls_buffer [where l = "\<lparr>Connected = True\<rparr>"])
       (simp_all add: start_world_def)
  moreover have "sum_list (map length [''ab'', ''cd'']) = 4" by simp
  moreover have "concat [''ab'', ''cd''] = ''abcd''" by simp
  moreover have "trace ?w = []" by (simp add: start_world_def)
  ultimately show ?thesis by (simp only:)
qed

text \<open>
  C3, evaluated at the input of its example: with capacity 4 and an empty buffer,
  \<^verbatim>\<open>Message("HELLOWORLD")\<close> makes four transmit calls, the first one with no bytes.
\<close>

theorem Message_long_on_empty_buffer:
  "map_option (transmitted \<circ> trace)
     (Message 4 ''HELLOWORLD'' (start_world 4 (Some \<lparr>Connected = True\<rparr>)))
   = Some ['''', ''HELL'', ''OWOR'', ''LD'']"
  by (simp add: Message_def start_world_def Message_split.simps)

text \<open>
  C4. When no channel is bound, or the bound channel is not connected at the time of the
  call, \<^verbatim>\<open>Message\<close> returns at once: no transmit call is made and the buffer, the fill
  level and everything else stay as they were.
\<close>

theorem Message_unbound_or_disconnected:
  "com (debugHandle w) = None \<or> (\<exists>l. com (debugHandle w) = Some l \<and> \<not> Connected l)
   \<Longrightarrow> Message cap msg w = Some w"
  by (auto simp: Message_def)

theorem Message_unbound_or_disconnected_witness:
  "Message 4 ''abc'' (start_world 4 None) = Some (start_world 4 None)
   \<and> Message 4 ''abc'' (start_world 4 (Some \<lparr>Connected = False\<rparr>))
       = Some (start_world 4 (Some \<lparr>Connected = False\<rparr>))"
  using Message_unbound_or_disconnected [of "start_world 4 None" 4 "''abc''"]
    Message_unbound_or_disconnected [of "start_world 4 (Some \<lparr>Connected = False\<rparr>)" 4 "''abc''"]
  by (simp add: start_world_def)

text \<open>
  C5 as stated fails: a second call of \<^verbatim>\<open>AssignDebugCOM\<close> creates a second semaphore
  and a second task, and a call with a null pointer leaves the buffered bytes in place.
\<close>

theorem AssignDebugCOM_twice_counterexample:
  "map_option trace
     (AssignDebugCOM ERROR_diagnostic 4 (Some \<lparr>Connected = True\<rparr>) True (start_world 4 None)
        \<bind> AssignDebugCOM ERROR_diagnostic 4 (Some \<lparr>Connected = True\<rparr>) True)
     = Some [SemaphoreCreated, TaskCreated, SemaphoreCreated, TaskCreated]
   \<and> map_option buffered
       (AssignDebugCOM ERROR_diagnostic 4 None True
          (set_currentBufferLocation 2 (set_messageBuffer ''ab'' (start_world 4 None))))
     = Some ''ab''"
  by (simp add: AssignDebugCOM_def start_world_def ERROR_diagnostic_def buffered_def)


text \<open>
  C5 as the code has it. Every call of \<^verbatim>\<open>AssignDebugCOM\<close> stores the pointer. With a
  null pointer it then only reports through \<^verbatim>\<open>ERROR\<close>. With a pointer to a channel it
  sets the fill level to 0 and zeroes the buffer, and then, on the first call as on every
  later one, creates a semaphore and a flush task; when the semaphore cannot be created
  it reports through \<^verbatim>\<open>ERROR\<close> instead and creates no task.
\<close>

theorem AssignDebugCOM_every_call:
  "AssignDebugCOM ERROR cap None semaphore_ok w
     = ERROR ''LSPC object does not exist'' (w\<lparr>debugHandle := (debugHandle w)\<lparr>com := None\<rparr>\<rparr>)
   \<and> AssignDebugCOM ERROR cap (Some l) False w
     = ERROR ''Could not create Debug mutex''
         (w\<lparr>debugHandle := (debugHandle w)
              \<lparr>com := Some l, currentBufferLocation := 0,
               messageBuffer := memset0 (messageBuffer (debugHandle w)) cap\<rparr>\<rparr>)
   \<and> AssignDebugCOM ERROR cap (Some l) True w
     = Some (w\<lparr>debugHandle := (debugHandle w)
                  \<lparr>com := Some l, currentBufferLocation := 0,
                   messageBuffer := memset0 (messageBuffer (debugHandle w)) cap\<rparr>,
               trace := trace w @ [SemaphoreCreated, TaskCreated]\<rparr>)
   \<and> memset0 (replicate cap c) cap = replicate cap (CHR 0x00)"
  by (simp add: AssignDebugCOM_def memset0_def set_currentBufferLocation_def set_messageBuffer_def)

text \<open>
  C6. With \<^verbatim>\<open>ERROR\<close> the non-fatal diagnostic of the spec, a construction while
  \<open>handleCreated\<close> is set returns: the new object has its two pointers cleared, the flag
  and the static object are as before, and the diagnostic has been reported.
\<close>

theorem Debug_ctor_duplicate:
  assumes "handleCreated w"
  shows "Debug_ctor ERROR_diagnostic this w
           = Some (this\<lparr>com := None, debugPulsePin := None\<rparr>,
                   w\<lparr>trace := trace w @ [Diagnostic ''Debug object already created'']\<rparr>)"
  using assms by (simp add: Debug_ctor_def ERROR_diagnostic_def)

theorem Debug_ctor_duplicate_witness:
  "handleCreated (start_world 4 None)
   \<and> map_option (\<lambda>(this, w). (handleCreated w, debugHandle w, trace w))
       (Debug_ctor ERROR_diagnostic \<lparr>com = Some \<lparr>Connected = True\<rparr>, debugPulsePin = None,
                      messageBuffer = [], currentBufferLocation = 0\<rparr> (start_world 4 None))
     = Some (True, debugHandle (start_world 4 None), [Diagnostic ''Debug object already created''])"
proof -
  have h: "handleCreated (start_world 4 None)" by (simp add: start_world_def)
  from Debug_ctor_duplicate [OF h] h show ?thesis by (simp add: start_world_def)
qed

text \<open>
  C7. \<^verbatim>\<open>Debug::Error\<close> never returns, whatever its arguments: after any number of rounds
  of its loop it is not back at the caller. It enters the loop right after the breakpoint,
  and every further round is one call of \<^verbatim>\<open>Message(type, functionName, msg)\<close> followed
  by one sleep of 500 ticks. For a positive package size every round is completed, and
  the log of a run is the breakpoint and then, round by round, the transmit calls of the
  message followed by the sleep. On a connected channel with texts below 65536
  characters, \<open>fuel\<close> rounds add \<open>fuel\<close> copies of
  \<open>type [ functionName ] msg newline\<close> to the bytes sent or buffered.
\<close>

theorem Error_never_returns:
  "Error cap fuel ty fn msg w \<noteq> Returned w'
   \<and> Error cap 0 ty fn msg w = In_loop (w\<lparr>trace := trace w @ [Breakpoint]\<rparr>)
   \<and> Error cap (Suc fuel) ty fn msg w
       = (case Error cap fuel ty fn msg w of
            In_loop w1 \<Rightarrow>
              (case Message_type cap ty fn msg w1 of
                 None \<Rightarrow> In_Message
               | Some w2 \<Rightarrow> In_loop (osDelay 500 w2))
          | r \<Rightarrow> r)
   \<and> (0 < cap \<longrightarrow>
        (\<exists>w1 pss. Error cap fuel ty fn msg w = In_loop w1
           \<and> length pss = fuel
           \<and> trace w1 = trace w @ Breakpoint
                 # concat (map (\<lambda>ps. map Transmit ps @ [Delay 500]) pss)))
   \<and> (0 < cap \<and> com (debugHandle w) = Some l \<and> Connected l
        \<and> length (messageBuffer (debugHandle w)) = cap
        \<and> currentBufferLocation (debugHandle w) \<le> cap
        \<and> length ty < 65536 \<and> length fn < 65536 \<and> length msg < 65536 \<longrightarrow>
        (\<exists>w1. Error cap fuel ty fn msg w = In_loop w1
           \<and> emitted w1 = emitted w
                @ concat (replicate fuel (ty @ ''['' @ fn @ ''] '' @ msg @ [CHR 0x0A]))))"
proof (intro conjI impI)
  show "Error cap fuel ty fn msg w \<noteq> Returned w'"
    by (simp add: Error_def Error_loop_not_Returned)
  show "Error cap 0 ty fn msg w = In_loop (w\<lparr>trace := trace w @ [Breakpoint]\<rparr>)"
    by (simp add: Error_def)
  show "Error cap (Suc fuel) ty fn msg w
       = (case Error cap fuel ty fn msg w of
            In_loop w1 \<Rightarrow>
              (case Message_type cap ty fn msg w1 of
                 None \<Rightarrow> In_Message
               | Some w2 \<Rightarrow> In_loop (osDelay 500 w2))
          | r \<Rightarrow> r)"
    unfolding Error_def by (rule Error_loop_last_round)
next
  assume "0 < cap"
  from Error_loop_trace [OF this, of fuel ty fn msg "w\<lparr>trace := trace w @ [Breakpoint]\<rparr>"]
  show "\<exists>w1 pss. Error cap fuel ty fn msg w = In_loop w1
           \<and> length pss = fuel
           \<and> trace w1 = trace w @ Breakpoint
                 # concat (map (\<lambda>ps. map Transmit ps @ [Delay 500]) pss)"
    by (simp add: Error_def)
next
  assume a: "0 < cap \<and> com (debugHandle w) = Some l \<and> Connected l
        \<and> length (messageBuffer (debugHandle w)) = cap
        \<and> currentBufferLocation (debugHandle w) \<le> cap
        \<and> length ty < 65536 \<and> length fn < 65536 \<and> length msg < 65536"
  let ?w = "w\<lparr>trace := trace w @ [Breakpoint]\<rparr>"
  have "\<exists>w1. Error_loop cap fuel ty fn msg ?w = In_loop w1
           \<and> emitted w1 = emitted ?w
                @ concat (replicate fuel (ty @ ''['' @ fn @ ''] '' @ msg @ [CHR 0x0A]))"
    by (rule Error_loop_emitted [where l = l]) (use a in simp_all)
  then show "\<exists>w1. Error cap fuel ty fn msg w = In_loop w1
           \<and> emitted w1 = emitted w
                @ concat (replicate fuel (ty @ ''['' @ fn @ ''] '' @ msg @ [CHR 0x0A]))"
    by (simp add: Error_def emitted_Breakpoint)
qed

theorem Error_never_returns_witness:
  "\<exists>w1. Error 4 2 ''E'' ''f'' ''m'' (start_world 4 (Some \<lparr>Connected = True\<rparr>)) = In_loop w1
      \<and> emitted w1 = ''E[f] m'' @ [CHR 0x0A] @ ''E[f] m'' @ [CHR 0x0A]"
proof -
  let ?w = "start_world 4 (Some \<lparr>Connected = True\<rparr>)"
  have h: "0 < (4::nat) \<and> com (debugHandle ?w) = Some \<lparr>Connected = True\<rparr>
        \<and> Connected \<lparr>Connected = True\<rparr>
        \<and> length (messageBuffer (debugHandle ?w)) = 4
        \<and> currentBufferLocation (debugHandle ?w) \<le> 4
        \<and> length ''E'' < 65536 \<and> length ''f'' < 65536 \<and> length ''m'' < 65536"
    by (simp add: start_world_def)
  have e: "emitted ?w = []"
    by (simp add: emitted_def buffered_def start_world_def)
  have r: "concat (replicate 2 (''E'' @ ''['' @ ''f'' @ ''] '' @ ''m'' @ [CHR 0x0A]))
             = ''E[f] m'' @ [CHR 0x0A] @ ''E[f] m'' @ [CHR 0x0A]"
    by (simp add: numeral_2_eq_2)
  from Error_never_returns [of 4 2 "''E''" "''f''" "''m''" ?w _ "\<lparr>Connected = True\<rparr>"] h
  have "\<exists>w1. Error 4 2 ''E'' ''f'' ''m'' ?w = In_loop w1
      \<and> emitted w1 = emitted ?w
            @ concat (replicate 2 (''E'' @ ''['' @ ''f'' @ ''] '' @ ''m'' @ [CHR 0x0A]))"
    by blast
  then show ?thesis by (simp only: e r append_Nil)
qed

text \<open>
  C8. The fill level never exceeds the capacity: if it is within the capacity before a
  call of \<^verbatim>\<open>Message\<close> or before a round of the flush thread, it is so afterwards, in
  every branch. For a positive capacity the call of \<^verbatim>\<open>Message\<close> does return.
\<close>

theorem fill_invariant:
  assumes "currentBufferLocation (debugHandle w) \<le> cap"
  shows "(\<forall>w'. Message cap msg w = Some w' \<longrightarrow> currentBufferLocation (debugHandle w') \<le> cap)
       \<and> (0 < cap \<longrightarrow> (\<exists>w'. Message cap msg w = Some w'))
       \<and> currentBufferLocation (debugHandle (PackageGeneratorThread_round w)) \<le> cap"
proof (intro conjI allI impI)
  fix w' assume m: "Message cap msg w = Some w'"
  show "currentBufferLocation (debugHandle w') \<le> cap"
  proof (cases "\<exists>l. com (debugHandle w) = Some l \<and> Connected l")
    case False
    with m have "w' = w" by (auto simp: Message_def split: option.splits)
    with assms show ?thesis by simp
  next
    case True
    then obtain l where l: "com (debugHandle w) = Some l" "Connected l" by blast
    let ?n = "length msg mod 65536"
    show ?thesis
    proof (cases "cap < ?n")
      case True
      with m l have "Message_split cap msg ?n (set_currentBufferLocation 0
          (TransmitAsync (messageBuffer (debugHandle w)) (currentBufferLocation (debugHandle w)) w)) = Some w'"
        by (simp add: Message_def)
      from Message_split_debugHandle [OF this] show ?thesis by simp
    next
      case False
      with m l have "w' = Message_fit cap msg ?n w" by (simp add: Message_def)
      with False assms show ?thesis
        by (simp add: Message_fit_def Let_def)
    qed
  qed
next
  assume "0 < cap"
  from Message_total [OF this, of msg w] show "\<exists>w'. Message cap msg w = Some w'" by blast
next
  show "currentBufferLocation (debugHandle (PackageGeneratorThread_round w)) \<le> cap"
    using assms by (simp add: PackageGeneratorThread_round_def Let_def)
qed

theorem fill_invariant_witness:
  "currentBufferLocation (debugHandle (start_world 4 (Some \<lparr>Connected = True\<rparr>))) \<le> 4
   \<and> (\<exists>w'. Message 4 ''abc'' (start_world 4 (Some \<lparr>Connected = True\<rparr>)) = Some w'
          \<and> currentBufferLocation (debugHandle w') \<le> 4)
   \<and> currentBufferLocation (debugHandle
        (PackageGeneratorThread_round (start_world 4 (Some \<lparr>Connected = True\<rparr>)))) \<le> 4"
proof -
  have h: "currentBufferLocation (debugHandle (start_world 4 (Some \<lparr>Connected = True\<rparr>))) \<le> 4"
    by (simp add: start_world_def)
  from fill_invariant [OF h, of "''abc''"] h show ?thesis by auto
qed

text \<open>
  C9, evaluated: the overload with \<^verbatim>\<open>std::string\<close> arguments leaves the type out of
  the text, the overload with \<^verbatim>\<open>const char *\<close> arguments puts it in front.
\<close>

theorem Message_type_string_drops_type:
  "map_option buffered
     (Message_type_string 32 ''ERROR: '' ''main'' ''boom'' (start_world 32 (Some \<lparr>Connected = True\<rparr>)))
     = Some (''[main] boom'' @ [CHR 0x0A])
   \<and> map_option buffered
     (Message_type 32 ''ERROR: '' ''main'' ''boom'' (start_world 32 (Some \<lparr>Connected = True\<rparr>)))
     = Some (''ERROR: [main] boom'' @ [CHR 0x0A])"
  by (simp add: Message_type_string_def Message_type_def Message_def start_world_def
      Message_fit_def memcpy_def buffered_def c_str_def)

text \<open>
  C10. For a positive capacity the text that \<^verbatim>\<open>printf\<close> hands to \<^verbatim>\<open>Message\<close> is the
  rendering, read as a C string, cut to \<open>capacity - 1\<close> characters. It never exceeds
  \<open>capacity - 1\<close> characters, so the call takes the branch for a message that fits in
  one package, or returns before it when no connected channel is bound or no memory is
  left.
\<close>

theorem printf_never_splits:
  assumes "0 < cap"
  shows "c_str (vsnprintf cap formatted) = take (cap - 1) (c_str formatted)
       \<and> length (c_str (vsnprintf cap formatted)) \<le> cap - 1
       \<and> \<not> cap < length (c_str (vsnprintf cap formatted)) mod 65536
       \<and> printf cap formatted malloc_ok w
           = Some (if (\<exists>l. com (debugHandle w) = Some l \<and> Connected l) \<and> malloc_ok
                   then Message_fit cap (take (cap - 1) (c_str formatted))
                          (length (take (cap - 1) (c_str formatted)) mod 65536) w
                   else w)"
proof (intro conjI)
  show eq: "c_str (vsnprintf cap formatted) = take (cap - 1) (c_str formatted)"
    by (simp add: c_str_def vsnprintf_def takeWhile_take)
  show len: "length (c_str (vsnprintf cap formatted)) \<le> cap - 1"
    by (simp add: eq)
  have "length (c_str (vsnprintf cap formatted)) mod 65536
          \<le> length (c_str (vsnprintf cap formatted))"
    by simp
  with len show fit: "\<not> cap < length (c_str (vsnprintf cap formatted)) mod 65536"
    using assms by simp
  show "printf cap formatted malloc_ok w
           = Some (if (\<exists>l. com (debugHandle w) = Some l \<and> Connected l) \<and> malloc_ok
                   then Message_fit cap (take (cap - 1) (c_str formatted))
                          (length (take (cap - 1) (c_str formatted)) mod 65536) w
                   else w)"
    using fit unfolding eq
    by (auto simp: printf_def Message_def eq split: option.splits)
qed

theorem printf_never_splits_witness:
  "map_option (\<lambda>w. (buffered w, trace w))
        (printf 4 ''HELLOWORLD'' True (start_world 4 (Some \<lparr>Connected = True\<rparr>)))
      = Some (''HEL'', [])
   \<and> map_option (\<lambda>w. (buffered w, trace w))
        (printf 32 [CHR ''a'', CHR 0x00, CHR ''b''] True (start_world 32 (Some \<lparr>Connected = True\<rparr>)))
      = Some (''a'', [])"
  using printf_never_splits [of 4 "''HELLOWORLD''" True "start_world 4 (Some \<lparr>Connected = True\<rparr>)"]
    printf_never_splits [of 32 "[CHR ''a'', CHR 0x00, CHR ''b'']" True
      "start_world 32 (Some \<lparr>Connected = True\<rparr>)"]
  by (simp add: start_world_def c_str_def Message_fit_def memcpy_def buffered_def)

end
